theory Spec2Isabelle
  imports Main "HOL-Library.AList"
begin

section \<open>Path engine (helper/walk/walk.go)\<close>

subsection \<open>Data model\<close>

text \<open>
  \<^verbatim>\<open>PathType\<close> is the enumeration of walk.go; \<^verbatim>\<open>PathTypeElement\<close> is the leaf kind and
  the zero value of the type.
\<close>

datatype PathType = PathTypeElement | PathTypeArray | PathTypeObject

text \<open>
  \<^verbatim>\<open>type Path struct { Next *Path; Index *int; Name string; Type PathType }\<close>.
  A step owns its successor, so the pointer \<^verbatim>\<open>Next\<close> is an optional sub-term and the
  nil pointer is \<open>None\<close>; \<^verbatim>\<open>Index *int\<close> is an optional integer.
\<close>

datatype Path = Step (Next: "Path option") (Index: "int option") (Name: string) (Type: PathType)

text \<open>
  Untyped data (\<^verbatim>\<open>interface{}\<close>): nil, scalars, a parsed \<^verbatim>\<open>time.Time\<close> (an instant, as
  seconds on the time line), \<^verbatim>\<open>map[string]interface{}\<close> as an association list read with
  \<open>map_of\<close>, and slices.
\<close>

datatype val =
    NilV
  | StrV string
  | IntV int
  | BoolV bool
  | TimeV int
  | MapV "(string \<times> val) list"
  | SliceV "val list"

text \<open>
  \<^verbatim>\<open>type Context struct\<close>, the argument of the walk callback. The fields \<^verbatim>\<open>Name\<close> and
  \<^verbatim>\<open>Index\<close> carry a prefix, the plain names being the selectors of \<open>Path\<close>.
\<close>

record Context =
  Value :: val
  Parent :: val
  Path :: Path
  CtxName :: string
  CtxIndex :: int
  NotFound :: bool

text \<open>A nil pointer dereference or an out-of-range \<^verbatim>\<open>reflect.Value.Index\<close> panics.\<close>

datatype walk_panic = NilDereference | IndexOutOfRange

subsection \<open>Queries on a path\<close>

fun HasArray :: "Path \<Rightarrow> bool" where
  "HasArray (Step nxt idx nm ty) =
     (if ty = PathTypeArray then True
      else (case nxt of None \<Rightarrow> False | Some q \<Rightarrow> HasArray q))"

fun Tail :: "Path \<Rightarrow> Path" where
  "Tail (Step nxt idx nm ty) =
     (case nxt of None \<Rightarrow> Step nxt idx nm ty | Some q \<Rightarrow> Tail q)"

fun Clone :: "Path \<Rightarrow> Path" where
  "Clone (Step nxt idx nm ty) =
     Step (case nxt of None \<Rightarrow> None | Some q \<Rightarrow> Some (Clone q)) idx nm ty"

text \<open>
  \<^verbatim>\<open>LastParent\<close>: the first step whose successor is a leaf, or nil.
\<close>

fun LastParent :: "Path \<Rightarrow> Path option" where
  "LastParent (Step nxt idx nm ty) =
     (case nxt of
        None \<Rightarrow> None
      | Some q \<Rightarrow> if Type q = PathTypeElement then Some (Step nxt idx nm ty) else LastParent q)"

text \<open>The steps of a chain in order, following \<^verbatim>\<open>Next\<close> until nil.\<close>

fun steps :: "Path \<Rightarrow> Path list" where
  "steps (Step nxt idx nm ty) =
     Step nxt idx nm ty # (case nxt of None \<Rightarrow> [] | Some q \<Rightarrow> steps q)"

definition kinds :: "Path \<Rightarrow> PathType list" where
  "kinds p = map Type (steps p)"

text \<open>
  Both \<^verbatim>\<open>Parse\<close> and \<^verbatim>\<open>walk\<close> write through a pointer to the last step of a chain they
  hold by its root (\<^verbatim>\<open>path\<close> in \<^verbatim>\<open>Parse\<close>; \<^verbatim>\<open>lastPathElement\<close> and \<^verbatim>\<open>clone.Tail()\<close> in
  \<^verbatim>\<open>walk\<close>). \<open>at_tail f root\<close> is the chain after the write \<open>f\<close> through that pointer.
\<close>

fun at_tail :: "(Path \<Rightarrow> Path) \<Rightarrow> Path \<Rightarrow> Path" where
  "at_tail f (Step nxt idx nm ty) =
     (case nxt of
        None \<Rightarrow> f (Step nxt idx nm ty)
      | Some q \<Rightarrow> Step (Some (at_tail f q)) idx nm ty)"

subsection \<open>The path scanner\<close>

text \<open>
  \<^verbatim>\<open>isValidSyntax\<close> is true exactly on the illegal pairs of adjacent characters (the
  scanner fails when it returns true).
\<close>

definition isValidSyntax :: "char \<Rightarrow> char \<Rightarrow> bool" where
  "isValidSyntax r next \<longleftrightarrow>
     (r = CHR ''.'' \<and> next = CHR ''.'') \<or>
     (r = CHR ''['' \<and> next \<noteq> CHR '']'') \<or>
     (r = CHR ''.'' \<and> (next = CHR '']'' \<or> next = CHR ''['')) \<or>
     (r \<noteq> CHR ''.'' \<and> r \<noteq> CHR ''['' \<and> next = CHR '']'') \<or>
     (r = CHR '']'' \<and> next \<noteq> CHR ''['' \<and> next \<noteq> CHR ''.'')"

text \<open>
  The error of \<^verbatim>\<open>fmt.Errorf("Illegal syntax: %q", path)\<close>: it carries the whole path
  string.
\<close>

datatype parse_error = IllegalSyntax string

text \<open>
  What one call of the split function returns: an error, a token of \<open>n\<close> bytes
  (\<^verbatim>\<open>advance = n, token = data[:n]\<close>), or the request for more data (\<^verbatim>\<open>0, nil, nil\<close>).
\<close>

datatype split_result = SplitError | SplitToken nat | SplitMore

text \<open>
  The \<^verbatim>\<open>for\<close> loop of the split function, from position \<open>i\<close>. Strings are byte
  sequences. \<^verbatim>\<open>utf8.DecodeRune\<close> decodes a byte below 128 to itself with width 1, and no
  longer or invalid sequence to one of the three characters the scanner tests, so the
  loop is followed byte by byte: the bytes of a longer rune are each neither a dot nor a
  bracket, as the rune is. \<open>None\<close> is the loop running to its end.
\<close>

function split_loop :: "string \<Rightarrow> nat \<Rightarrow> split_result option" where
  "split_loop data i =
     (if i < length data then
        (let r = data ! i in
         if i + 1 < length data then
           (let next = data ! (i + 1) in
            if isValidSyntax r next then Some SplitError
            else if r = CHR ''.'' \<and> i = 0 then Some (SplitToken (i + 1))
            else if next = CHR ''.'' \<or> next = CHR ''['' then Some (SplitToken (i + 1))
            else split_loop data (i + 1))
         else if r = CHR ''.'' \<or> r = CHR ''['' then Some SplitError
         else split_loop data (i + 1))
      else None)"
  by pat_completeness auto
termination
  by (relation "measure (\<lambda>(data, i). length data - i)") auto

declare split_loop.simps [simp del]

definition split :: "string \<Rightarrow> string \<Rightarrow> bool \<Rightarrow> split_result" where
  "split path data atEOF =
     (if length path = 0 \<or> path ! 0 = CHR ''.'' then SplitError
      else (case split_loop data 0 of
              Some res \<Rightarrow> res
            | None \<Rightarrow> if atEOF \<and> length data > 0 then SplitToken (length data) else SplitMore))"

text \<open>
  \<^verbatim>\<open>bufio.Scanner\<close> over \<^verbatim>\<open>strings.NewReader(path)\<close>, for a path that fits the scanner's
  first buffer (\<open>startBufSize\<close> bytes): the first read delivers the whole path, the next
  one reports the end of input. \<open>data\<close> is the unconsumed part of the buffer, \<open>eof\<close>
  whether the end of input has been seen. With nothing buffered and no end of input
  seen, the scanner reads before it calls the split function; a token advances the
  buffer; a request for more data is answered by the end of input, and at the end of
  input it ends the scan. The result is the error of \<^verbatim>\<open>scanner.Err()\<close> or the tokens that
  \<^verbatim>\<open>scanner.Scan()\<close> delivered, in order.
\<close>

definition startBufSize :: nat where
  "startBufSize = 4096"

lemma split_loop_token:
  "split_loop data i = Some (SplitToken n) \<Longrightarrow> i < n \<and> n < length data"
proof (induction data i rule: split_loop.induct)
  case (1 data i)
  show ?case
  proof (cases "i < length data")
    case False
    with "1.prems" show ?thesis
      by (simp add: split_loop.simps [of data i])
  next
    case lt: True
    show ?thesis
    proof (cases "i + 1 < length data")
      case True
      with lt "1.prems" "1.IH"(1) [OF lt refl True refl] show ?thesis
        by (auto simp add: split_loop.simps [of data i] Let_def split: if_splits)
    next
      case False
      with lt "1.prems" "1.IH"(2) [OF lt refl False] show ?thesis
        by (auto simp add: split_loop.simps [of data i] Let_def split: if_splits)
    qed
  qed
qed

lemma split_token:
  "split path data atEOF = SplitToken n \<Longrightarrow> 0 < n \<and> n \<le> length data"
  by (auto simp: split_def split: if_splits option.splits dest: split_loop_token)

function scan :: "string \<Rightarrow> string \<Rightarrow> bool \<Rightarrow> parse_error + string list" where
  "scan path data eof =
     (if data = [] \<and> \<not> eof then scan path data True
      else (case split path data eof of
              SplitError \<Rightarrow> Inl (IllegalSyntax path)
            | SplitToken n \<Rightarrow>
                (case scan path (drop n data) eof of
                   Inl e \<Rightarrow> Inl e
                 | Inr ts \<Rightarrow> Inr (take n data # ts))
            | SplitMore \<Rightarrow> if eof then Inr [] else scan path data True))"
  by pat_completeness auto
termination
proof (relation "measures [\<lambda>(path, data, eof). length data, \<lambda>(path, data, eof). if eof then 0 else 1]")
  fix path data :: string and eof :: bool and n :: nat
  assume "split path data eof = SplitToken n"
  then have "0 < n \<and> n \<le> length data"
    by (rule split_token)
  then show "((path, drop n data, eof), path, data, eof)
      \<in> measures [\<lambda>(path, data, eof). length data, \<lambda>(path, data, eof). if eof then 0 else 1]"
    by auto
qed auto

declare scan.simps [simp del]

definition createPathScanner :: "string \<Rightarrow> parse_error + string list" where
  "createPathScanner path = scan path path False"

subsection \<open>Parse\<close>

text \<open>
  The body of the \<^verbatim>\<open>switch t\<close> of \<^verbatim>\<open>Parse\<close>, as the write it makes to the step under the
  cursor \<^verbatim>\<open>path\<close>. Each branch that links new steps moves the cursor to the last of them,
  so the cursor is the last step of the chain throughout.
\<close>

definition new_step :: "PathType \<Rightarrow> Path" where
  "new_step ty = Step None None [] ty"

definition parse_token :: "string \<Rightarrow> Path \<Rightarrow> Path" where
  "parse_token t path =
     (if t = ''[]'' then
        (if Type path = PathTypeArray
         then Step (Some (new_step PathTypeArray)) (Index path) (Name path) (Type path)
         else Step (Next path) (Index path) (Name path) PathTypeArray)
      else if t = ''.'' then
        (if Type path = PathTypeArray
         then Step (Some (Step (Some (new_step PathTypeElement)) None [] PathTypeObject))
                (Index path) (Name path) (Type path)
         else Step (Some (new_step PathTypeElement)) (Index path) (Name path) PathTypeObject)
      else Step (Next path) (Index path) t (Type path))"

definition parse_finish :: "Path \<Rightarrow> Path" where
  "parse_finish path =
     (if Type path \<noteq> PathTypeElement
      then Step (Some (new_step PathTypeElement)) (Index path) (Name path) (Type path)
      else path)"

text \<open>
  The loop body does not touch the scanner, so the tokens are collected first; an error
  of the scanner discards the chain built so far.
\<close>

definition Parse :: "string \<Rightarrow> parse_error + Path" where
  "Parse p =
     (case createPathScanner p of
        Inl err \<Rightarrow> Inl err
      | Inr ts \<Rightarrow>
          Inr (at_tail parse_finish
                 (foldl (\<lambda>rootPath t. at_tail (parse_token t) rootPath) (new_step PathTypeElement) ts)))"

subsection \<open>Walk\<close>

definition newNotFoundContext :: "val \<Rightarrow> Path \<Rightarrow> string \<Rightarrow> int \<Rightarrow> Context" where
  "newNotFoundContext parent path name index =
     \<lparr>Value = NilV, Parent = parent, Path = path, CtxName = name, CtxIndex = index,
      NotFound = True\<rparr>"

text \<open>
  The callbacks of the iterations of the fan-out loop, in order; a panic ends the loop.
\<close>

fun collect :: "(walk_panic + Context list) list \<Rightarrow> walk_panic + Context list" where
  "collect [] = Inr []"
| "collect (r # rs) =
     (case r of
        Inl e \<Rightarrow> Inl e
      | Inr cs \<Rightarrow> (case collect rs of Inl e \<Rightarrow> Inl e | Inr ds \<Rightarrow> Inr (cs @ ds)))"

text \<open>
  The first block of \<^verbatim>\<open>walk\<close>: the lookup of a named step. \<open>Inl\<close> is the not-found
  callback of that block; \<open>Inr\<close> gives \<^verbatim>\<open>element\<close>, \<^verbatim>\<open>parent\<close> and \<^verbatim>\<open>index\<close> after it.
\<close>

definition lookup_step :: "Path \<Rightarrow> val \<Rightarrow> val \<Rightarrow> int \<Rightarrow> Path \<Rightarrow> Context + (val \<times> val \<times> int)" where
  "lookup_step p currentElement parent index path =
     (if Name p \<noteq> [] then
        (case currentElement of
           MapV ce \<Rightarrow>
             (case map_of ce (Name p) of
                Some element \<Rightarrow> Inr (element, currentElement, - 1)
              | None \<Rightarrow> Inl (newNotFoundContext currentElement path (Name p) (- 1)))
         | _ \<Rightarrow> Inl (newNotFoundContext currentElement path (Name p) index))
      else Inr (currentElement, parent, index))"

text \<open>
  \<^verbatim>\<open>walk\<close> returns the contexts passed to the callback \<^verbatim>\<open>f\<close>, in call order. \<^verbatim>\<open>path\<close> is
  the chain explored so far and \<^verbatim>\<open>lastPathElement\<close> its last step, so the writes through
  \<^verbatim>\<open>lastPathElement\<close> (and through \<^verbatim>\<open>clone.Tail()\<close> in the loop) are \<open>at_tail\<close> on \<^verbatim>\<open>path\<close>.
\<close>

fun walk :: "Path \<Rightarrow> val \<Rightarrow> val \<Rightarrow> int \<Rightarrow> Path \<Rightarrow> walk_panic + Context list" where
  "walk (Step nxt idx nm ty) currentElement parent index path =
     (case lookup_step (Step nxt idx nm ty) currentElement parent index path of
        Inl notFound \<Rightarrow> Inr [notFound]
      | Inr (element, parent', index') \<Rightarrow>
          (case ty of
             PathTypeElement \<Rightarrow>
               Inr [\<lparr>Value = element, Parent = parent', Path = path, CtxName = nm,
                     CtxIndex = index', NotFound = False\<rparr>]
           | PathTypeArray \<Rightarrow>
               (case element of
                  SliceV list \<Rightarrow>
                    (case nxt of
                       None \<Rightarrow> Inl NilDereference
                     | Some q \<Rightarrow>
                         if Type q \<noteq> PathTypeElement \<and> length list = 0
                         then Inr [newNotFoundContext element path [] index']
                         else (case idx of
                                 Some k \<Rightarrow>
                                   if k \<ge> int (length list)
                                   then Inr [newNotFoundContext element path [] k]
                                   else if k < 0 then Inl IndexOutOfRange
                                   else walk q (list ! nat k) element k
                                          (at_tail (\<lambda>l. Step (Some (Step None None (Name q) (Type q)))
                                                           idx (Name l) (Type l)) path)
                               | None \<Rightarrow>
                                   collect
                                     (map (\<lambda>i. walk q (list ! i) element (int i)
                                                 (at_tail (\<lambda>l. Step (Some (Step None None (Name q) (Type q)))
                                                                  (Some (int i)) (Name l) (Type l))
                                                    (Clone path)))
                                        [0..<length list])))
                | _ \<Rightarrow> Inr [newNotFoundContext parent' path nm index'])
           | PathTypeObject \<Rightarrow>
               (case nxt of
                  None \<Rightarrow> Inl NilDereference
                | Some q \<Rightarrow>
                    walk q element parent' index'
                      (at_tail (\<lambda>l. Step (Some (Step None None (Name q) (Type q)))
                                       (Index l) (Name l) (Type l)) path))))"

definition Walk :: "Path \<Rightarrow> val \<Rightarrow> walk_panic + Context list" where
  "Walk p currentElement =
     walk p currentElement NilV (- 1) (Step None None (Name p) (Type p))"

section \<open>Date rules of the validation engine\<close>

subsection \<open>Time values and parsing\<close>

text \<open>
  A \<^verbatim>\<open>time.Time\<close> is the instant it denotes (\<open>TimeV\<close>); \<^verbatim>\<open>Before\<close>, \<^verbatim>\<open>After\<close> and
  \<^verbatim>\<open>Equal\<close> compare instants.
\<close>

definition Before :: "int \<Rightarrow> int \<Rightarrow> bool" where
  "Before t u \<longleftrightarrow> t < u"

definition After :: "int \<Rightarrow> int \<Rightarrow> bool" where
  "After t u \<longleftrightarrow> t > u"

definition Equal :: "int \<Rightarrow> int \<Rightarrow> bool" where
  "Equal t u \<longleftrightarrow> t = u"

text \<open>
  \<^verbatim>\<open>time.Parse(layout, value)\<close> belongs to the standard library. The rules take it as
  the parameter \<open>tp\<close> (\<open>None\<close> is its error), and what is proved of them holds for
  every such function.
\<close>

type_synonym time_Parse = "string \<Rightarrow> string \<Rightarrow> int option"

text \<open>
  Some values of \<^verbatim>\<open>time.Parse\<close>, for evaluating the rules on concrete forms: three dates
  under the date-only and the date-time layout, as seconds since 1970-01-01T00:00:00Z.
  No other input is evaluated below, except strings that are no dates at all.
\<close>

definition sample_Parse :: time_Parse where
  "sample_Parse layout str =
     (if layout = ''2006-01-02'' \<and> str = ''2023-01-01'' then Some 1672531200
      else if layout = ''2006-01-02'' \<and> str = ''2023-06-01'' then Some 1685577600
      else if layout = ''2006-01-02'' \<and> str = ''2023-12-31'' then Some 1703980800
      else if layout = ''2006-01-02T15:04:05'' \<and> str = ''2023-01-01T00:00:00'' then Some 1672531200
      else if layout = ''2006-01-02T15:04:05'' \<and> str = ''2023-06-01T00:00:00'' then Some 1685577600
      else if layout = ''2006-01-02T15:04:05'' \<and> str = ''2023-12-31T00:00:00'' then Some 1703980800
      else None)"

datatype date_error = ParseFailed | NotAString | CannotParseOther | NotADate

definition parseDate :: "time_Parse \<Rightarrow> val \<Rightarrow> string \<Rightarrow> date_error + int" where
  "parseDate tp date format =
     (case date of
        StrV str \<Rightarrow> (case tp format str of Some t \<Rightarrow> Inr t | None \<Rightarrow> Inl ParseFailed)
      | _ \<Rightarrow> Inl NotAString)"

subsection \<open>Panics\<close>

text \<open>
  What stops a rule without a result: the parameter-count check, the \<^verbatim>\<open>panic(err)\<close> of
  \<^verbatim>\<open>getDates\<close>, and an index beyond the end of \<^verbatim>\<open>dates\<close>.
\<close>

datatype rule_panic =
    ParameterCount string nat
  | UnparsableParameter string
  | DatesIndex

text \<open>
  Modelled from the spec: \<^verbatim>\<open>requireParametersCount\<close> is called by every comparison rule
  and is not in the sources. The spec's parameter-count contract: the comparison rules
  "require exactly 1 parameter; \<^verbatim>\<open>date_between\<close> requires exactly 2", and a violation
  "must halt". \<open>Some\<close> is the halt.
\<close>

definition requireParametersCount :: "string \<Rightarrow> string list \<Rightarrow> nat \<Rightarrow> rule_panic option" where
  "requireParametersCount rule params count =
     (if length params \<noteq> count then Some (ParameterCount rule count) else None)"

subsection \<open>getDates\<close>

text \<open>
  The form is a \<^verbatim>\<open>map[string]interface{}\<close>, an association list read with \<open>map_of\<close>
  and written with \<open>AList.update\<close>. The loop of \<^verbatim>\<open>getDates\<close> over the parameters, with
  the dates collected so far; the result is the panic, or the pair that \<^verbatim>\<open>getDates\<close>
  returns (\<open>None\<close> is the nil error).
\<close>

fun getDates_loop ::
  "time_Parse \<Rightarrow> (string \<times> val) list \<Rightarrow> int list \<Rightarrow> string list
     \<Rightarrow> rule_panic + (int list \<times> date_error option)" where
  "getDates_loop tp form dates [] = Inr (dates, None)"
| "getDates_loop tp form dates (param # params) =
     (case map_of form param of
        Some other \<Rightarrow>
          (case other of
             TimeV otherDate \<Rightarrow> getDates_loop tp form (dates @ [otherDate]) params
           | _ \<Rightarrow>
               (case parseDate tp other ''2006-01-02'' of
                  Inl err \<Rightarrow> Inr (dates, Some CannotParseOther)
                | Inr t \<Rightarrow> getDates_loop tp form (dates @ [t]) params))
      | None \<Rightarrow>
          (case parseDate tp (StrV param) ''2006-01-02T15:04:05'' of
             Inl err \<Rightarrow> Inl (UnparsableParameter param)
           | Inr t \<Rightarrow> getDates_loop tp form (dates @ [t]) params))"

definition getDates ::
  "time_Parse \<Rightarrow> val \<Rightarrow> string list \<Rightarrow> (string \<times> val) list
     \<Rightarrow> rule_panic + (int list \<times> date_error option)" where
  "getDates tp value parameters form =
     (case value of
        TimeV date \<Rightarrow> getDates_loop tp form ([] @ [date]) parameters
      | _ \<Rightarrow> Inr ([], Some NotADate))"

subsection \<open>The rules\<close>

text \<open>
  \<^verbatim>\<open>validateDate\<close> returns its verdict and the form after the call. The form is an
  allocated map (a write to a nil map would panic).
\<close>

definition validateDate ::
  "time_Parse \<Rightarrow> string \<Rightarrow> val \<Rightarrow> string list \<Rightarrow> (string \<times> val) list
     \<Rightarrow> bool \<times> (string \<times> val) list" where
  "validateDate tp field value parameters form =
     (let parameters' = (if length parameters = 0 then parameters @ [''2006-01-02'']
                         else parameters)
      in case parseDate tp value (parameters' ! 0) of
           Inr t \<Rightarrow> (True, AList.update field (TimeV t) form)
         | Inl err \<Rightarrow> (False, form))"

text \<open>
  \<^verbatim>\<open>err == nil && cmp(dates[0], dates[1])\<close>, the body shared by the five rules of one
  parameter: the check of the parameter count, \<^verbatim>\<open>getDates\<close>, then the comparison, which
  is evaluated only when the error is nil.
\<close>

definition compare_dates ::
  "string \<Rightarrow> (int \<Rightarrow> int \<Rightarrow> bool) \<Rightarrow> time_Parse \<Rightarrow> val \<Rightarrow> string list \<Rightarrow> (string \<times> val) list
     \<Rightarrow> rule_panic + bool" where
  "compare_dates rule cmp tp value parameters form =
     (case requireParametersCount rule parameters 1 of
        Some p \<Rightarrow> Inl p
      | None \<Rightarrow>
          (case getDates tp value parameters form of
             Inl p \<Rightarrow> Inl p
           | Inr (dates, err) \<Rightarrow>
               if err = None
               then (if 1 < length dates then Inr (cmp (dates ! 0) (dates ! 1)) else Inl DatesIndex)
               else Inr False))"

definition validateBefore ::
  "time_Parse \<Rightarrow> string \<Rightarrow> val \<Rightarrow> string list \<Rightarrow> (string \<times> val) list \<Rightarrow> rule_panic + bool" where
  "validateBefore tp field value parameters form =
     compare_dates ''before'' (\<lambda>d0 d1. Before d0 d1) tp value parameters form"

definition validateBeforeEqual ::
  "time_Parse \<Rightarrow> string \<Rightarrow> val \<Rightarrow> string list \<Rightarrow> (string \<times> val) list \<Rightarrow> rule_panic + bool" where
  "validateBeforeEqual tp field value parameters form =
     compare_dates ''before_equal'' (\<lambda>d0 d1. Before d0 d1 \<or> Equal d0 d1) tp value parameters form"

definition validateAfter ::
  "time_Parse \<Rightarrow> string \<Rightarrow> val \<Rightarrow> string list \<Rightarrow> (string \<times> val) list \<Rightarrow> rule_panic + bool" where
  "validateAfter tp field value parameters form =
     compare_dates ''after'' (\<lambda>d0 d1. After d0 d1) tp value parameters form"

definition validateAfterEqual ::
  "time_Parse \<Rightarrow> string \<Rightarrow> val \<Rightarrow> string list \<Rightarrow> (string \<times> val) list \<Rightarrow> rule_panic + bool" where
  "validateAfterEqual tp field value parameters form =
     compare_dates ''after_equal'' (\<lambda>d0 d1. After d0 d1 \<or> Equal d0 d1) tp value parameters form"

definition validateDateEquals ::
  "time_Parse \<Rightarrow> string \<Rightarrow> val \<Rightarrow> string list \<Rightarrow> (string \<times> val) list \<Rightarrow> rule_panic + bool" where
  "validateDateEquals tp field value parameters form =
     compare_dates ''date_equals'' (\<lambda>d0 d1. Equal d0 d1) tp value parameters form"

definition validateDateBetween ::
  "time_Parse \<Rightarrow> string \<Rightarrow> val \<Rightarrow> string list \<Rightarrow> (string \<times> val) list \<Rightarrow> rule_panic + bool" where
  "validateDateBetween tp field value parameters form =
     (case requireParametersCount ''date_between'' parameters 2 of
        Some p \<Rightarrow> Inl p
      | None \<Rightarrow>
          (case getDates tp value parameters form of
             Inl p \<Rightarrow> Inl p
           | Inr (dates, err) \<Rightarrow>
               if err = None
               then (if 1 < length dates
                     then (if After (dates ! 0) (dates ! 1) \<or> Equal (dates ! 0) (dates ! 1)
                           then (if 2 < length dates
                                 then Inr (Before (dates ! 0) (dates ! 2) \<or> Equal (dates ! 0) (dates ! 2))
                                 else Inl DatesIndex)
                           else Inr False)
                     else Inl DatesIndex)
               else Inr False))"

section \<open>Notions used in the statements\<close>

subsection \<open>The successor invariant\<close>

text \<open>
  While \<^verbatim>\<open>Parse\<close> runs, every step before the cursor is an Array or an Object step
  (\<open>inner_ok\<close>); once the trailing leaf is linked, a step is a leaf exactly when it has no
  successor (\<open>chain_ok\<close>).
\<close>

fun inner_ok :: "Path \<Rightarrow> bool" where
  "inner_ok (Step nxt idx nm ty) =
     (case nxt of None \<Rightarrow> True | Some q \<Rightarrow> ty \<noteq> PathTypeElement \<and> inner_ok q)"

fun chain_ok :: "Path \<Rightarrow> bool" where
  "chain_ok (Step nxt idx nm ty) =
     (case nxt of None \<Rightarrow> ty = PathTypeElement | Some q \<Rightarrow> ty \<noteq> PathTypeElement \<and> chain_ok q)"

subsection \<open>Resolution of one parameter\<close>

text \<open>
  The spec's words for the parameters of a comparison rule: each parameter "names either
  another field in the form (if that field's value is already a parsed timestamp, reuse
  it; otherwise attempt to parse it using a fixed default date-only layout) or, if the
  named field is absent from the form, attempt to parse the parameter string itself as a
  literal timestamp using a fixed datetime layout". \<open>resolve\<close> states the three outcomes
  in these words; it is compared with the loop of \<^verbatim>\<open>getDates\<close> below.
\<close>

datatype resolution = Resolved int | FieldUnparsable | LiteralUnparsable

definition resolve :: "time_Parse \<Rightarrow> (string \<times> val) list \<Rightarrow> string \<Rightarrow> resolution" where
  "resolve tp form param =
     (case map_of form param of
        Some other \<Rightarrow>
          (case other of
             TimeV otherDate \<Rightarrow> Resolved otherDate
           | _ \<Rightarrow> (case parseDate tp other ''2006-01-02'' of
                      Inr t \<Rightarrow> Resolved t
                    | Inl err \<Rightarrow> FieldUnparsable))
      | None \<Rightarrow>
          (case tp ''2006-01-02T15:04:05'' param of
             Some t \<Rightarrow> Resolved t
           | None \<Rightarrow> LiteralUnparsable))"

section \<open>Properties of the path engine\<close>

subsection \<open>Parsed chains of the examples\<close>

lemma Parse_a_b_arr_c:
  "Parse ''a.b[].c'' =
     Inr (Step (Some (Step (Some (Step (Some (Step None None ''c'' PathTypeElement)) None []
            PathTypeObject)) None ''b'' PathTypeArray)) None ''a'' PathTypeObject)"
  by code_simp

lemma Parse_a_b:
  "Parse ''a.b'' = Inr (Step (Some (Step None None ''b'' PathTypeElement)) None ''a'' PathTypeObject)"
  by code_simp

text \<open>
  C1, as stated: the chain of \<^verbatim>\<open>Parse("a.b[].c")\<close> has the five kinds Object, Object, Array,
  Object, Leaf. It does not: the chain has four steps.
\<close>

theorem C1_five_kinds_counterexample:
  "map_sum id kinds (Parse ''a.b[].c'')
     \<noteq> Inr [PathTypeObject, PathTypeObject, PathTypeArray, PathTypeObject, PathTypeElement]"
  by (simp add: Parse_a_b_arr_c kinds_def)

text \<open>
  C1, amended: \<^verbatim>\<open>Parse("a.b[].c")\<close> succeeds with the chain \<open>a\<close> (Object), \<open>b\<close> (Array), an
  unnamed Object step, \<open>c\<close> (Leaf); on it \<^verbatim>\<open>HasArray()\<close> is true and \<^verbatim>\<open>Tail()\<close> is the leaf
  step \<open>c\<close>.
\<close>

theorem C1_parse_structure:
  "Parse ''a.b[].c'' =
     Inr (Step (Some (Step (Some (Step (Some (Step None None ''c'' PathTypeElement)) None []
            PathTypeObject)) None ''b'' PathTypeArray)) None ''a'' PathTypeObject)
   \<and> map_sum id kinds (Parse ''a.b[].c'')
       = Inr [PathTypeObject, PathTypeArray, PathTypeObject, PathTypeElement]
   \<and> map_sum id HasArray (Parse ''a.b[].c'') = Inr True
   \<and> map_sum id Tail (Parse ''a.b[].c'') = Inr (Step None None ''c'' PathTypeElement)"
  by (simp add: Parse_a_b_arr_c kinds_def)

text \<open>
  C5: walking \<open>{"a": {}}\<close> with the parsed path \<open>a.b\<close> calls the callback once, with
  \<^verbatim>\<open>NotFound\<close> true and a nil \<^verbatim>\<open>Value\<close>; walking \<open>{"a": {"b": null}}\<close> calls it once with
  \<^verbatim>\<open>NotFound\<close> false and a nil \<^verbatim>\<open>Value\<close>: a null that is present differs from an absent key.
\<close>

theorem C5_not_found_semantics:
  "map_sum id (\<lambda>p. Walk p (MapV [(''a'', MapV [])])) (Parse ''a.b'')
     = Inr (Inr [\<lparr>Value = NilV, Parent = MapV [],
                 Path = Step (Some (Step None None ''b'' PathTypeElement)) None ''a'' PathTypeObject,
                 CtxName = ''b'', CtxIndex = - 1, NotFound = True\<rparr>])
   \<and> map_sum id (\<lambda>p. Walk p (MapV [(''a'', MapV [(''b'', NilV)])])) (Parse ''a.b'')
     = Inr (Inr [\<lparr>Value = NilV, Parent = MapV [(''b'', NilV)],
                 Path = Step (Some (Step None None ''b'' PathTypeElement)) None ''a'' PathTypeObject,
                 CtxName = ''b'', CtxIndex = - 1, NotFound = False\<rparr>])"
  by (simp add: Parse_a_b Walk_def lookup_step_def newNotFoundContext_def)

subsection \<open>The successor invariant of parsed chains\<close>

text \<open>
  Every write of \<^verbatim>\<open>Parse\<close> through its cursor keeps \<open>inner_ok\<close>, and linking the
  trailing leaf establishes \<open>chain_ok\<close>.
\<close>

lemma inner_ok_at_tail:
  "(\<And>s. Next s = None \<Longrightarrow> inner_ok (f s)) \<Longrightarrow> inner_ok p \<Longrightarrow> inner_ok (at_tail f p)"
proof (induction f p rule: at_tail.induct)
  case (1 f nxt idx nm ty)
  show ?case
  proof (cases nxt)
    case None
    then show ?thesis using "1.prems"(1) [of "Step None idx nm ty"] by simp
  next
    case (Some q)
    then show ?thesis using "1.IH" [OF Some] "1.prems" by simp
  qed
qed

lemma chain_ok_at_tail:
  "(\<And>s. Next s = None \<Longrightarrow> chain_ok (f s)) \<Longrightarrow> inner_ok p \<Longrightarrow> chain_ok (at_tail f p)"
proof (induction f p rule: at_tail.induct)
  case (1 f nxt idx nm ty)
  show ?case
  proof (cases nxt)
    case None
    then show ?thesis using "1.prems"(1) [of "Step None idx nm ty"] by simp
  next
    case (Some q)
    then show ?thesis using "1.IH" [OF Some] "1.prems" by simp
  qed
qed

lemma inner_ok_parse_token: "Next s = None \<Longrightarrow> inner_ok (parse_token t s)"
  by (cases s) (simp add: parse_token_def new_step_def)

lemma chain_ok_parse_finish: "Next s = None \<Longrightarrow> chain_ok (parse_finish s)"
  by (cases s) (simp add: parse_finish_def new_step_def)

lemma inner_ok_tokens:
  "inner_ok root \<Longrightarrow> inner_ok (foldl (\<lambda>rootPath t. at_tail (parse_token t) rootPath) root ts)"
  by (induction ts arbitrary: root) (simp_all add: inner_ok_at_tail inner_ok_parse_token)

lemma Parse_chain_ok: "Parse p = Inr root \<Longrightarrow> chain_ok root"
  by (auto simp: Parse_def new_step_def split: sum.splits
      intro!: chain_ok_at_tail chain_ok_parse_finish inner_ok_tokens)

lemma chain_ok_steps:
  "chain_ok p \<Longrightarrow> s \<in> set (steps p) \<Longrightarrow> (Type s = PathTypeElement) = (Next s = None)"
proof (induction p rule: steps.induct)
  case (1 nxt idx nm ty)
  then show ?case by (cases nxt) auto
qed

lemma chain_ok_Tail:
  "chain_ok p \<Longrightarrow> Type (Tail p) = PathTypeElement \<and> Next (Tail p) = None"
proof (induction p rule: Tail.induct)
  case (1 nxt idx nm ty)
  then show ?case by (cases nxt) auto
qed


text \<open>
  C9: in every chain that \<^verbatim>\<open>Parse\<close> returns, each step whose kind is not Leaf has a non-nil
  successor, a Leaf step has none, and the last step is a Leaf with a nil successor.
\<close>

theorem C9_parse_invariant:
  assumes "Parse p = Inr root"
  shows "(\<forall>s \<in> set (steps root).
            (Type s \<noteq> PathTypeElement \<longrightarrow> Next s \<noteq> None) \<and>
            (Type s = PathTypeElement \<longrightarrow> Next s = None))
         \<and> Type (Tail root) = PathTypeElement \<and> Next (Tail root) = None"
  using Parse_chain_ok [OF assms] chain_ok_steps [of root] chain_ok_Tail [of root] by blast

theorem C9_parse_invariant_witness:
  "Parse ''a.b[].c'' =
     Inr (Step (Some (Step (Some (Step (Some (Step None None ''c'' PathTypeElement)) None []
            PathTypeObject)) None ''b'' PathTypeArray)) None ''a'' PathTypeObject)
   \<and> list_all (\<lambda>s. (Type s \<noteq> PathTypeElement \<longrightarrow> Next s \<noteq> None) \<and>
            (Type s = PathTypeElement \<longrightarrow> Next s = None))
        (steps (Step (Some (Step (Some (Step (Some (Step None None ''c'' PathTypeElement)) None []
            PathTypeObject)) None ''b'' PathTypeArray)) None ''a'' PathTypeObject))
   \<and> Type (Tail (Step (Some (Step (Some (Step (Some (Step None None ''c'' PathTypeElement)) None []
            PathTypeObject)) None ''b'' PathTypeArray)) None ''a'' PathTypeObject)) = PathTypeElement
   \<and> Next (Tail (Step (Some (Step (Some (Step (Some (Step None None ''c'' PathTypeElement)) None []
            PathTypeObject)) None ''b'' PathTypeArray)) None ''a'' PathTypeObject)) = None"
  using C9_parse_invariant [OF Parse_a_b_arr_c] Parse_a_b_arr_c
  by (simp add: list_all_iff)

subsection \<open>Fan-out over an empty sequence\<close>

lemma Parse_list_arr:
  "Parse ''list[]'' = Inr (Step (Some (Step None None [] PathTypeElement)) None ''list'' PathTypeArray)"
  by code_simp

lemma Parse_list_arr_x:
  "Parse ''list[].x'' =
     Inr (Step (Some (Step (Some (Step None None ''x'' PathTypeElement)) None [] PathTypeObject))
            None ''list'' PathTypeArray)"
  by code_simp

text \<open>
  C10: an array step without a fixed index that reaches an empty sequence (as the
  current element of an unnamed step, or under the step's name in the current map).
  When its successor is the leaf step, the callback is not called at all; otherwise it
  is called once, with a not-found context whose parent is the empty sequence.
\<close>

theorem C10_empty_fanout:
  assumes "(nm = [] \<and> cur = SliceV [] \<and> index' = index)
         \<or> (nm \<noteq> [] \<and> (\<exists>m. cur = MapV m \<and> map_of m nm = Some (SliceV [])) \<and> index' = - 1)"
  shows "walk (Step (Some q) None nm PathTypeArray) cur parent index path =
           Inr (if Type q = PathTypeElement then []
                else [newNotFoundContext (SliceV []) path [] index'])"
  using assms by (auto simp: lookup_step_def)

theorem C10_empty_fanout_witness:
  "map_sum id (\<lambda>p. Walk p (MapV [(''list'', SliceV [])])) (Parse ''list[]'') = Inr (Inr [])
   \<and> map_sum id (\<lambda>p. Walk p (MapV [(''list'', SliceV [])])) (Parse ''list[].x'')
       = Inr (Inr [\<lparr>Value = NilV, Parent = SliceV [],
                    Path = Step None None ''list'' PathTypeArray, CtxName = [],
                    CtxIndex = - 1, NotFound = True\<rparr>])"
  using
    C10_empty_fanout [of "''list''" "MapV [(''list'', SliceV [])]" "- 1" "- 1"
      "Step None None [] PathTypeElement" NilV "Step None None ''list'' PathTypeArray"]
    C10_empty_fanout [of "''list''" "MapV [(''list'', SliceV [])]" "- 1" "- 1"
      "Step (Some (Step None None ''x'' PathTypeElement)) None [] PathTypeObject" NilV
      "Step None None ''list'' PathTypeArray"]
  by (simp add: Parse_list_arr Parse_list_arr_x Walk_def newNotFoundContext_def)

subsection \<open>Fan-out over the elements of a sequence\<close>









subsection \<open>Illegal syntax\<close>

text \<open>
  An illegal pair of adjacent characters anywhere in the unconsumed input ends the scan
  with the error: the split function tests every pair up to the end of the token it
  returns, and the next token starts at the second character of the last pair tested.
\<close>

lemma split_loop_illegal:
  "i \<le> j \<Longrightarrow> Suc j < length data \<Longrightarrow> isValidSyntax (data ! j) (data ! Suc j) \<Longrightarrow>
     split_loop data i = Some SplitError \<or> (\<exists>n. split_loop data i = Some (SplitToken n) \<and> n \<le> j)"
proof (induction data i rule: split_loop.induct)
  case (1 data i)
  from "1.prems" have lt: "i < length data" and lt2: "i + 1 < length data"
    by auto
  show ?case
  proof (cases "i = j")
    case True
    with "1.prems" lt lt2 have "split_loop data i = Some SplitError"
      by (subst split_loop.simps) (simp add: Let_def)
    then show ?thesis by simp
  next
    case False
    with "1.prems" have le: "i + 1 \<le> j" by simp
    show ?thesis
    proof (cases "isValidSyntax (data ! i) (data ! (i + 1))
                  \<or> (data ! i = CHR ''.'' \<and> i = 0)
                  \<or> (data ! (i + 1) = CHR ''.'' \<or> data ! (i + 1) = CHR ''['')")
      case True
      with lt lt2 le show ?thesis
        by (auto simp add: split_loop.simps [of data i] Let_def)
    next
      case stop: False
      then have "split_loop data i = split_loop data (i + 1)"
        using lt lt2 by (subst split_loop.simps) (auto simp add: Let_def)
      moreover from stop have
        "split_loop data (i + 1) = Some SplitError
          \<or> (\<exists>n. split_loop data (i + 1) = Some (SplitToken n) \<and> n \<le> j)"
        using "1.IH"(1) [OF lt refl lt2 refl _ _ _ le "1.prems"(2,3)] by auto
      ultimately show ?thesis by simp
    qed
  qed
qed

lemma scan_illegal_pair:
  "Suc j < length data \<Longrightarrow> isValidSyntax (data ! j) (data ! Suc j) \<Longrightarrow>
     scan path data eof = Inl (IllegalSyntax path)"
proof (induction path data eof arbitrary: j rule: scan.induct)
  case (1 path data eof)
  from "1.prems" have ne: "data \<noteq> []" by auto
  show ?case
  proof (cases "split path data eof")
    case SplitError
    with ne show ?thesis by (simp add: scan.simps [of path data eof])
  next
    case (SplitToken n)
    then have bad: "\<not> (length path = 0 \<or> path ! 0 = CHR ''.'')"
      by (auto simp: split_def)
    from split_loop_illegal [OF _ "1.prems", of 0] SplitToken bad
    have nj: "n \<le> j"
      by (auto simp: split_def split: option.splits if_splits)
    with "1.prems" have "Suc (j - n) < length (drop n data)"
      and "isValidSyntax (drop n data ! (j - n)) (drop n data ! Suc (j - n))"
      by (auto simp: Suc_diff_le)
    from "1.IH"(2) [OF _ SplitToken this] ne
    have "scan path (drop n data) eof = Inl (IllegalSyntax path)" by simp
    with ne SplitToken show ?thesis by (simp add: scan.simps [of path data eof])
  next
    case SplitMore
    then have bad: "\<not> (length path = 0 \<or> path ! 0 = CHR ''.'')"
      by (auto simp: split_def)
    from split_loop_illegal [OF _ "1.prems", of 0] SplitMore bad
    show ?thesis
      by (auto simp: split_def split: option.splits if_splits)
  qed
qed

lemma scan_leading_dot:
  "path \<noteq> [] \<Longrightarrow> path ! 0 = CHR ''.'' \<Longrightarrow> scan path path False = Inl (IllegalSyntax path)"
  by (simp add: scan.simps [of path path False] split_def)

lemma Parse_illegal_pair:
  "Suc i < length p \<Longrightarrow> isValidSyntax (p ! i) (p ! Suc i) \<Longrightarrow> Parse p = Inl (IllegalSyntax p)"
  by (simp add: Parse_def createPathScanner_def scan_illegal_pair)

lemma Parse_leading_dot:
  "p \<noteq> [] \<Longrightarrow> p ! 0 = CHR ''.'' \<Longrightarrow> Parse p = Inl (IllegalSyntax p)"
  by (simp add: Parse_def createPathScanner_def scan_leading_dot)

lemma Parse_a_arr_b:
  "Parse ''a[].b'' =
     Inr (Step (Some (Step (Some (Step None None ''b'' PathTypeElement)) None [] PathTypeObject))
            None ''a'' PathTypeArray)"
  by code_simp

text \<open>
  C8: \<^verbatim>\<open>Parse\<close> rejects \<open>.a\<close>, \<open>a..b\<close>, \<open>a[\<close> and \<open>a]b\<close> with the error that carries the path
  string, and accepts \<open>a[].b\<close>. In general, for a path within the scanner's first buffer,
  the parse fails with that error when the path starts with a dot, or somewhere holds two
  consecutive dots, a dot next to a bracket (\<open>.[\<close>, \<open>.]\<close>, \<open>[.\<close>), a character other than the
  opening bracket immediately before \<open>]\<close>, or a \<open>]\<close> followed by a character that is neither
  \<open>.\<close> nor \<open>[\<close>. (The pairs \<open>[]\<close> and \<open>].\<close> are the array marker and the dot after it, as in
  the accepted \<open>a[].b\<close>.)
\<close>

theorem C8_illegal_syntax_rejected:
  "Parse ''.a'' = Inl (IllegalSyntax ''.a'')
   \<and> Parse ''a..b'' = Inl (IllegalSyntax ''a..b'')
   \<and> Parse ''a['' = Inl (IllegalSyntax ''a['')
   \<and> Parse ''a]b'' = Inl (IllegalSyntax ''a]b'')
   \<and> Parse ''a[].b'' =
       Inr (Step (Some (Step (Some (Step None None ''b'' PathTypeElement)) None [] PathTypeObject))
              None ''a'' PathTypeArray)
   \<and> (\<forall>p. length p \<le> startBufSize \<longrightarrow>
          (p \<noteq> [] \<and> p ! 0 = CHR ''.'')
          \<or> (\<exists>i. Suc i < length p \<and>
                (p ! i = CHR ''.'' \<and> p ! Suc i = CHR ''.''
                 \<or> p ! i = CHR ''.'' \<and> (p ! Suc i = CHR ''['' \<or> p ! Suc i = CHR '']'')
                 \<or> p ! i = CHR ''['' \<and> p ! Suc i = CHR ''.''
                 \<or> p ! i \<noteq> CHR ''['' \<and> p ! Suc i = CHR '']''
                 \<or> p ! i = CHR '']'' \<and> p ! Suc i \<noteq> CHR ''.'' \<and> p ! Suc i \<noteq> CHR ''['')) \<longrightarrow>
          Parse p = Inl (IllegalSyntax p))"
proof -
  have concrete:
    "Parse ''.a'' = Inl (IllegalSyntax ''.a'')" "Parse ''a..b'' = Inl (IllegalSyntax ''a..b'')"
    "Parse ''a['' = Inl (IllegalSyntax ''a['')" "Parse ''a]b'' = Inl (IllegalSyntax ''a]b'')"
    by code_simp+
  have general: "Parse p = Inl (IllegalSyntax p)"
    if "(p \<noteq> [] \<and> p ! 0 = CHR ''.'')
          \<or> (\<exists>i. Suc i < length p \<and>
                (p ! i = CHR ''.'' \<and> p ! Suc i = CHR ''.''
                 \<or> p ! i = CHR ''.'' \<and> (p ! Suc i = CHR ''['' \<or> p ! Suc i = CHR '']'')
                 \<or> p ! i = CHR ''['' \<and> p ! Suc i = CHR ''.''
                 \<or> p ! i \<noteq> CHR ''['' \<and> p ! Suc i = CHR '']''
                 \<or> p ! i = CHR '']'' \<and> p ! Suc i \<noteq> CHR ''.'' \<and> p ! Suc i \<noteq> CHR ''[''))"
    for p
    using that
  proof (elim disjE conjE exE)
    assume "p \<noteq> []" "p ! 0 = CHR ''.''"
    then show ?thesis by (rule Parse_leading_dot)
  qed (rule Parse_illegal_pair, assumption, simp add: isValidSyntax_def)+
  from concrete Parse_a_arr_b general show ?thesis
    by (intro conjI allI impI) assumption+
qed

theorem C8_illegal_syntax_rejected_witness:
  "length ''x.[y'' \<le> startBufSize \<and> ''x.[y'' ! 1 = CHR ''.'' \<and> ''x.[y'' ! Suc 1 = CHR ''[''
   \<and> Parse ''x.[y'' = Inl (IllegalSyntax ''x.[y'')"
proof -
  have len: "length ''x.[y'' \<le> startBufSize"
    by (simp add: startBufSize_def)
  have pair: "(''x.[y'' \<noteq> [] \<and> ''x.[y'' ! 0 = CHR ''.'')
          \<or> (\<exists>i. Suc i < length ''x.[y'' \<and>
                (''x.[y'' ! i = CHR ''.'' \<and> ''x.[y'' ! Suc i = CHR ''.''
                 \<or> ''x.[y'' ! i = CHR ''.'' \<and> (''x.[y'' ! Suc i = CHR ''['' \<or> ''x.[y'' ! Suc i = CHR '']'')
                 \<or> ''x.[y'' ! i = CHR ''['' \<and> ''x.[y'' ! Suc i = CHR ''.''
                 \<or> ''x.[y'' ! i \<noteq> CHR ''['' \<and> ''x.[y'' ! Suc i = CHR '']''
                 \<or> ''x.[y'' ! i = CHR '']'' \<and> ''x.[y'' ! Suc i \<noteq> CHR ''.'' \<and> ''x.[y'' ! Suc i \<noteq> CHR ''[''))"
    by (rule disjI2, rule exI [of _ 1]) simp
  from C8_illegal_syntax_rejected have
    "\<forall>p. length p \<le> startBufSize \<longrightarrow>
          (p \<noteq> [] \<and> p ! 0 = CHR ''.'')
          \<or> (\<exists>i. Suc i < length p \<and>
                (p ! i = CHR ''.'' \<and> p ! Suc i = CHR ''.''
                 \<or> p ! i = CHR ''.'' \<and> (p ! Suc i = CHR ''['' \<or> p ! Suc i = CHR '']'')
                 \<or> p ! i = CHR ''['' \<and> p ! Suc i = CHR ''.''
                 \<or> p ! i \<noteq> CHR ''['' \<and> p ! Suc i = CHR '']''
                 \<or> p ! i = CHR '']'' \<and> p ! Suc i \<noteq> CHR ''.'' \<and> p ! Suc i \<noteq> CHR ''['')) \<longrightarrow>
          Parse p = Inl (IllegalSyntax p)"
    by (elim conjE)
  with len pair have "Parse ''x.[y'' = Inl (IllegalSyntax ''x.[y'')"
    by blast
  with len show ?thesis by simp
qed

section \<open>Properties of the date rules\<close>

subsection \<open>The loop of getDates and the resolution of a parameter\<close>

text \<open>
  One turn of the loop of \<^verbatim>\<open>getDates\<close> is the resolution of its parameter: a resolved
  timestamp is appended, a field that does not parse ends the loop with the error, a
  literal that does not parse panics.
\<close>

lemma getDates_loop_resolve:
  "getDates_loop tp form dates (param # params) =
     (case resolve tp form param of
        Resolved t \<Rightarrow> getDates_loop tp form (dates @ [t]) params
      | FieldUnparsable \<Rightarrow> Inr (dates, Some CannotParseOther)
      | LiteralUnparsable \<Rightarrow> Inl (UnparsableParameter param))"
  by (simp add: resolve_def parseDate_def split: option.splits val.splits sum.splits)

lemma getDates_not_time:
  "(\<forall>t. value \<noteq> TimeV t) \<Longrightarrow> getDates tp value parameters form = Inr ([], Some NotADate)"
  by (cases "value") (simp_all add: getDates_def)

lemma getDates_one:
  "getDates tp (TimeV t) [p] form =
     (case resolve tp form p of
        Resolved u \<Rightarrow> Inr ([t, u], None)
      | FieldUnparsable \<Rightarrow> Inr ([t], Some CannotParseOther)
      | LiteralUnparsable \<Rightarrow> Inl (UnparsableParameter p))"
  by (simp add: getDates_def getDates_loop_resolve del: getDates_loop.simps(2) split: resolution.splits)

lemma getDates_two:
  "getDates tp (TimeV t) [p, p'] form =
     (case resolve tp form p of
        Resolved u \<Rightarrow>
          (case resolve tp form p' of
             Resolved v \<Rightarrow> Inr ([t, u, v], None)
           | FieldUnparsable \<Rightarrow> Inr ([t, u], Some CannotParseOther)
           | LiteralUnparsable \<Rightarrow> Inl (UnparsableParameter p'))
      | FieldUnparsable \<Rightarrow> Inr ([t], Some CannotParseOther)
      | LiteralUnparsable \<Rightarrow> Inl (UnparsableParameter p))"
  by (simp add: getDates_def getDates_loop_resolve del: getDates_loop.simps(2) split: resolution.splits)

lemmas rule_defs =
  validateBefore_def validateBeforeEqual_def validateAfter_def validateAfterEqual_def
  validateDateEquals_def compare_dates_def validateDateBetween_def requireParametersCount_def

subsection \<open>Failing closed\<close>

text \<open>
  C2, as stated: a comparison rule returns false on any parse error and never panics. The
  form below has no field \<open>not-a-date\<close>, the parameter is no date-time literal, and
  \<^verbatim>\<open>before\<close> panics with the parse error.
\<close>

theorem C2_literal_panic_counterexample:
  "validateBefore sample_Parse ''start'' (TimeV 1672531200) [''not-a-date'']
     [(''start'', TimeV 1672531200)] = Inl (UnparsableParameter ''not-a-date'')"
  by (simp add: rule_defs getDates_one resolve_def sample_Parse_def)

text \<open>
  C2, amended: given its required number of parameters, a comparison rule returns false
  when the field's value is not a parsed timestamp, and when the first parameter that
  does not resolve names a form field whose value is neither a timestamp nor a string in
  the date-only layout; it returns no error value. When the first parameter that does not
  resolve names no form field (its text is no date-time literal), the rule panics with
  the parse error. In particular \<^verbatim>\<open>before\<close> on a value that is not a timestamp returns
  false.
\<close>

theorem C2_fail_closed:
  "(\<forall>rule \<in> set [validateBefore, validateBeforeEqual, validateAfter, validateAfterEqual,
                   validateDateEquals].
      ((\<forall>t. value \<noteq> TimeV t) \<longrightarrow> rule tp field value [p] form = Inr False)
      \<and> (resolve tp form p = FieldUnparsable \<longrightarrow> rule tp field (TimeV t) [p] form = Inr False)
      \<and> (resolve tp form p = LiteralUnparsable \<longrightarrow>
           rule tp field (TimeV t) [p] form = Inl (UnparsableParameter p)))
   \<and> ((\<forall>t. value \<noteq> TimeV t) \<longrightarrow> validateDateBetween tp field value [p, p'] form = Inr False)
   \<and> (resolve tp form p = FieldUnparsable \<longrightarrow>
        validateDateBetween tp field (TimeV t) [p, p'] form = Inr False)
   \<and> (resolve tp form p = LiteralUnparsable \<longrightarrow>
        validateDateBetween tp field (TimeV t) [p, p'] form = Inl (UnparsableParameter p))
   \<and> (resolve tp form p = Resolved u \<and> resolve tp form p' = FieldUnparsable \<longrightarrow>
        validateDateBetween tp field (TimeV t) [p, p'] form = Inr False)
   \<and> (resolve tp form p = Resolved u \<and> resolve tp form p' = LiteralUnparsable \<longrightarrow>
        validateDateBetween tp field (TimeV t) [p, p'] form = Inl (UnparsableParameter p'))"
  by (simp add: rule_defs getDates_not_time getDates_one getDates_two)

theorem C2_fail_closed_witness:
  "validateBefore sample_Parse ''start'' (StrV ''tomorrow'') [''2023-06-01T00:00:00'']
      [(''start'', StrV ''tomorrow'')] = Inr False
   \<and> resolve sample_Parse [(''start'', TimeV 1672531200), (''end'', StrV ''later'')] ''end''
       = FieldUnparsable
   \<and> validateBefore sample_Parse ''start'' (TimeV 1672531200) [''end'']
       [(''start'', TimeV 1672531200), (''end'', StrV ''later'')] = Inr False
   \<and> validateDateBetween sample_Parse ''start'' (TimeV 1672531200) [''2023-01-01T00:00:00'', ''end'']
       [(''start'', TimeV 1672531200), (''end'', StrV ''later'')] = Inr False
   \<and> resolve sample_Parse [(''start'', TimeV 1672531200)] ''not-a-date'' = LiteralUnparsable
   \<and> validateAfter sample_Parse ''start'' (TimeV 1672531200) [''not-a-date'']
       [(''start'', TimeV 1672531200)] = Inl (UnparsableParameter ''not-a-date'')"
  using
    C2_fail_closed [of "StrV ''tomorrow''" sample_Parse "''start''" "''2023-06-01T00:00:00''"
      "[(''start'', StrV ''tomorrow'')]"]
    C2_fail_closed [of "TimeV 1672531200" sample_Parse "''start''" "''end''"
      "[(''start'', TimeV 1672531200), (''end'', StrV ''later'')]" 1672531200]
    C2_fail_closed [of "TimeV 1672531200" sample_Parse "''start''" "''2023-01-01T00:00:00''"
      "[(''start'', TimeV 1672531200), (''end'', StrV ''later'')]" 1672531200 "''end''" 1672531200]
    C2_fail_closed [of "TimeV 1672531200" sample_Parse "''start''" "''not-a-date''"
      "[(''start'', TimeV 1672531200)]" 1672531200]
  by (simp add: resolve_def parseDate_def sample_Parse_def)

subsection \<open>Comparison semantics\<close>

text \<open>
  C6: with the field's timestamp \<open>t\<close> and the parameter resolved to \<open>u\<close>, \<^verbatim>\<open>before\<close> passes
  iff \<open>t < u\<close>, \<^verbatim>\<open>before_equal\<close> iff \<open>t \<le> u\<close>, \<^verbatim>\<open>after\<close> iff \<open>t > u\<close>, \<^verbatim>\<open>after_equal\<close> iff
  \<open>t \<ge> u\<close>, \<^verbatim>\<open>date_equals\<close> iff \<open>t = u\<close>; with the two parameters resolved to \<open>lo\<close> and
  \<open>hi\<close>, \<^verbatim>\<open>date_between\<close> passes iff \<open>lo \<le> t \<le> hi\<close>, both bounds included.
\<close>

theorem C6_comparison_semantics:
  "(resolve tp form p = Resolved u \<longrightarrow>
      validateBefore tp field (TimeV t) [p] form = Inr (t < u)
      \<and> validateBeforeEqual tp field (TimeV t) [p] form = Inr (t \<le> u)
      \<and> validateAfter tp field (TimeV t) [p] form = Inr (u < t)
      \<and> validateAfterEqual tp field (TimeV t) [p] form = Inr (u \<le> t)
      \<and> validateDateEquals tp field (TimeV t) [p] form = Inr (t = u))
   \<and> (resolve tp form p = Resolved lo \<and> resolve tp form p' = Resolved hi \<longrightarrow>
      validateDateBetween tp field (TimeV t) [p, p'] form = Inr (lo \<le> t \<and> t \<le> hi))"
  by (auto simp add: rule_defs getDates_one getDates_two Before_def After_def Equal_def)

theorem C6_comparison_semantics_witness:
  "resolve sample_Parse [(''start'', TimeV 1672531200)] ''2023-06-01T00:00:00'' = Resolved 1685577600
   \<and> validateBefore sample_Parse ''start'' (TimeV 1672531200) [''2023-06-01T00:00:00'']
       [(''start'', TimeV 1672531200)] = Inr True
   \<and> validateAfter sample_Parse ''start'' (TimeV 1672531200) [''2023-06-01T00:00:00'']
       [(''start'', TimeV 1672531200)] = Inr False
   \<and> validateDateBetween sample_Parse ''start'' (TimeV 1672531200)
       [''2023-01-01T00:00:00'', ''2023-12-31T00:00:00''] [(''start'', TimeV 1672531200)] = Inr True
   \<and> validateDateBetween sample_Parse ''start'' (TimeV 1703980800)
       [''2023-01-01T00:00:00'', ''2023-12-31T00:00:00''] [(''start'', TimeV 1703980800)] = Inr True
   \<and> validateDateBetween sample_Parse ''start'' (TimeV 1703980801)
       [''2023-01-01T00:00:00'', ''2023-12-31T00:00:00''] [(''start'', TimeV 1703980801)] = Inr False"
  using
    C6_comparison_semantics [of sample_Parse "[(''start'', TimeV 1672531200)]"
      "''2023-06-01T00:00:00''" 1685577600 "''start''" 1672531200]
    C6_comparison_semantics [of sample_Parse "[(''start'', TimeV 1672531200)]"
      "''2023-01-01T00:00:00''" _ "''start''" 1672531200 1672531200 "''2023-12-31T00:00:00''" 1703980800]
    C6_comparison_semantics [of sample_Parse "[(''start'', TimeV 1703980800)]"
      "''2023-01-01T00:00:00''" _ "''start''" 1703980800 1672531200 "''2023-12-31T00:00:00''" 1703980800]
    C6_comparison_semantics [of sample_Parse "[(''start'', TimeV 1703980801)]"
      "''2023-01-01T00:00:00''" _ "''start''" 1703980801 1672531200 "''2023-12-31T00:00:00''" 1703980800]
  by (simp add: resolve_def sample_Parse_def)

subsection \<open>The date rule\<close>

text \<open>
  C7: \<^verbatim>\<open>date\<close> parses the raw value with its first parameter as the layout, and with the
  date-only layout when it has no parameter; a value that is not a string does not parse.
  When the parse succeeds the rule returns true and the form then holds the parsed
  timestamp under the field, every other field as before; when it fails the rule
  returns false and the form is the one it was given.
\<close>

theorem C7_date_rule:
  "(parseDate tp value (if parameters = [] then ''2006-01-02'' else parameters ! 0) = Inr t \<longrightarrow>
      fst (validateDate tp field value parameters form) = True
      \<and> snd (validateDate tp field value parameters form) = AList.update field (TimeV t) form
      \<and> map_of (snd (validateDate tp field value parameters form)) field = Some (TimeV t)
      \<and> (\<forall>k. k \<noteq> field \<longrightarrow>
            map_of (snd (validateDate tp field value parameters form)) k = map_of form k))
   \<and> (parseDate tp value (if parameters = [] then ''2006-01-02'' else parameters ! 0) = Inl e \<longrightarrow>
      validateDate tp field value parameters form = (False, form))
   \<and> parseDate tp (StrV str) layout = (case tp layout str of Some t' \<Rightarrow> Inr t' | None \<Rightarrow> Inl ParseFailed)
   \<and> ((\<forall>str'. value \<noteq> StrV str') \<longrightarrow> parseDate tp value layout = Inl NotAString)"
  by (cases "value") (auto simp add: validateDate_def parseDate_def update_conv' Let_def split: option.splits)

theorem C7_date_rule_witness:
  "validateDate sample_Parse ''start'' (StrV ''2023-01-01'') []
      [(''start'', StrV ''2023-01-01''), (''n'', IntV 3)]
     = (True, [(''start'', TimeV 1672531200), (''n'', IntV 3)])
   \<and> validateDate sample_Parse ''start'' (StrV ''soon'') []
      [(''start'', StrV ''soon''), (''n'', IntV 3)]
     = (False, [(''start'', StrV ''soon''), (''n'', IntV 3)])
   \<and> validateDate sample_Parse ''start'' (IntV 3) [''2006-01-02T15:04:05'']
      [(''start'', IntV 3)] = (False, [(''start'', IntV 3)])"
  using
    C7_date_rule [of sample_Parse "StrV ''2023-01-01''" "[]" 1672531200 "''start''"
      "[(''start'', StrV ''2023-01-01''), (''n'', IntV 3)]"]
    C7_date_rule [of sample_Parse "StrV ''soon''" "[]" _ "''start''"
      "[(''start'', StrV ''soon''), (''n'', IntV 3)]" ParseFailed]
    C7_date_rule [of sample_Parse "IntV 3" "[''2006-01-02T15:04:05'']" _ "''start''"
      "[(''start'', IntV 3)]" NotAString]
  by (simp add: parseDate_def sample_Parse_def prod_eq_iff)

end
